theory Spec2Isabelle
  imports
    Complex_Main
    "HOL-Library.Char_ord"
    "HOL-Library.List_Lexorder"
    "HOL-Library.Multiset"
begin

section \<open>Python values\<close>

text \<open>
  The values the program handles are the ones \<^verbatim>\<open>json\<close> reads and writes: \<^verbatim>\<open>None\<close>,
  booleans, integers, floats, strings, lists and dictionaries with string keys.
  A dictionary is an association list in insertion order whose keys are distinct, as a
  Python \<^verbatim>\<open>dict\<close> is. A float is idealised as a real number.
\<close>

datatype pyval =
    PNone
  | PBool bool
  | PInt int
  | PFloat real
  | PStr string
  | PList "pyval list"
  | PDict "(string \<times> pyval) list"

type_synonym pydict = "(string \<times> pyval) list"

datatype pyerror =
    TypeError | AttributeError | JSONDecodeError | IntegrityError | ProgrammingError | OverflowError

text \<open>\<^verbatim>\<open>d.get(k, default)\<close>.\<close>

definition dict_get :: "pydict \<Rightarrow> string \<Rightarrow> pyval \<Rightarrow> pyval" where
  "dict_get d k dflt = (case map_of d k of None \<Rightarrow> dflt | Some v \<Rightarrow> v)"

text \<open>\<^verbatim>\<open>d[k] = v\<close>: an existing key keeps its position, a new key goes last.\<close>

fun dict_set :: "string \<Rightarrow> pyval \<Rightarrow> pydict \<Rightarrow> pydict" where
  "dict_set k v [] = [(k, v)]"
| "dict_set k v (p # ps) = (if fst p = k then (k, v) # ps else p # dict_set k v ps)"

text \<open>The truth value of an object, as \<^verbatim>\<open>if x:\<close> tests it.\<close>

fun truthy :: "pyval \<Rightarrow> bool" where
  "truthy PNone = False"
| "truthy (PBool b) = b"
| "truthy (PInt n) = (n \<noteq> 0)"
| "truthy (PFloat x) = (x \<noteq> 0)"
| "truthy (PStr s) = (s \<noteq> [])"
| "truthy (PList xs) = (xs \<noteq> [])"
| "truthy (PDict d) = (d \<noteq> [])"

text \<open>\<^verbatim>\<open>for x in v\<close>: a list yields its elements, a string its characters, a dictionary its
  keys; anything else is not iterable.\<close>

fun py_iter :: "pyval \<Rightarrow> pyerror + pyval list" where
  "py_iter (PList xs) = Inr xs"
| "py_iter (PStr s) = Inr (map (\<lambda>c. PStr [c]) s)"
| "py_iter (PDict d) = Inr (map (\<lambda>p. PStr (fst p)) d)"
| "py_iter v = Inl TypeError"

text \<open>
  The library functions the program calls and does not define. Every theorem below holds
  for any such functions.
  \<^item> \<open>sha256_hexdigest b\<close> is \<^verbatim>\<open>hashlib.sha256(b).hexdigest()\<close>;
  \<^item> \<open>str_encode s\<close> is \<^verbatim>\<open>s.encode()\<close>;
  \<^item> \<open>json_dumps v sort_keys separators\<close> is \<^verbatim>\<open>json.dumps(v, sort_keys=..., separators=...)\<close>;
  \<^item> \<open>json_loads s\<close> is \<^verbatim>\<open>json.loads(s)\<close>, \<open>None\<close> when it raises;
  \<^item> \<open>jsonify_data v\<close> is the body of the response \<^verbatim>\<open>flask.jsonify(v)\<close>;
  \<^item> \<open>sqlite_text v\<close> is the text that SQLite stores in a TEXT column for a number \<open>v\<close>
    bound to it.
\<close>

record pylib =
  sha256_hexdigest :: "string \<Rightarrow> string"
  str_encode :: "string \<Rightarrow> string"
  json_dumps :: "pyval \<Rightarrow> bool \<Rightarrow> string \<times> string \<Rightarrow> string"
  json_loads :: "string \<Rightarrow> pyval option"
  jsonify_data :: "pyval \<Rightarrow> string"
  sqlite_text :: "pyval \<Rightarrow> string"

section \<open>hasher.py\<close>

text \<open>The body of the loop of \<^verbatim>\<open>normalize_messages\<close>: \<^verbatim>\<open>msg.get\<close> exists on a
  dictionary only.\<close>

definition normalize_message :: "pyval \<Rightarrow> pyerror + pydict" where
  "normalize_message msg =
     (case msg of
        PDict m \<Rightarrow>
          Inr (let norm_msg = [(''role'', dict_get m ''role'' (PStr '''')),
                               (''content'', dict_get m ''content'' (PStr ''''))];
                   norm_msg = (case map_of m ''name'' of
                                 Some v \<Rightarrow> dict_set ''name'' v norm_msg | None \<Rightarrow> norm_msg);
                   norm_msg = (case map_of m ''tool_calls'' of
                                 Some v \<Rightarrow> dict_set ''tool_calls'' v norm_msg | None \<Rightarrow> norm_msg);
                   norm_msg = (case map_of m ''tool_call_id'' of
                                 Some v \<Rightarrow> dict_set ''tool_call_id'' v norm_msg | None \<Rightarrow> norm_msg)
               in norm_msg)
      | _ \<Rightarrow> Inl AttributeError)"

fun normalize_loop :: "pyval list \<Rightarrow> pydict list \<Rightarrow> pyerror + pydict list" where
  "normalize_loop [] normalized = Inr normalized"
| "normalize_loop (msg # rest) normalized =
     (case normalize_message msg of
        Inl e \<Rightarrow> Inl e
      | Inr norm_msg \<Rightarrow> normalize_loop rest (normalized @ [norm_msg]))"

definition normalize_messages :: "pyval \<Rightarrow> pyerror + pydict list" where
  "normalize_messages messages =
     (case py_iter messages of Inl e \<Rightarrow> Inl e | Inr msgs \<Rightarrow> normalize_loop msgs [])"

text \<open>
  The dictionary \<^verbatim>\<open>request_data\<close> that \<^verbatim>\<open>hash_request\<close> builds before it serialises it.
  \<^verbatim>\<open>sorted(kwargs.items())\<close> compares (key, value) pairs; the keys of a dictionary are
  distinct, so the comparison is settled by the keys, and the sort is by key.
\<close>

definition hash_request_data ::
  "pyval \<Rightarrow> pyval \<Rightarrow> pyval \<Rightarrow> pyval \<Rightarrow> pyval \<Rightarrow> pydict \<Rightarrow> pyerror + pydict" where
  "hash_request_data messages model temperature max_tokens tools kwargs =
     (case normalize_messages messages of
        Inl e \<Rightarrow> Inl e
      | Inr normalized \<Rightarrow>
          Inr (let request_data = [(''messages'', PList (map PDict normalized)),
                                   (''model'', model)];
                   request_data = (if temperature \<noteq> PNone
                                   then dict_set ''temperature'' temperature request_data
                                   else request_data);
                   request_data = (if max_tokens \<noteq> PNone
                                   then dict_set ''max_tokens'' max_tokens request_data
                                   else request_data);
                   request_data = (if truthy tools
                                   then dict_set ''tools'' tools request_data
                                   else request_data)
               in fold (\<lambda>(key, val) rd. if val \<noteq> PNone then dict_set key val rd else rd)
                    (sort_key fst kwargs) request_data))"

definition hash_request ::
  "pylib \<Rightarrow> pyval \<Rightarrow> pyval \<Rightarrow> pyval \<Rightarrow> pyval \<Rightarrow> pyval \<Rightarrow> pydict \<Rightarrow> pyerror + string" where
  "hash_request L messages model temperature max_tokens tools kwargs =
     (case hash_request_data messages model temperature max_tokens tools kwargs of
        Inl e \<Rightarrow> Inl e
      | Inr request_data \<Rightarrow>
          Inr (let json_str = json_dumps L (PDict request_data) True ('','', '':'')
               in sha256_hexdigest L (str_encode L json_str)))"

text \<open>
  A call \<^verbatim>\<open>hash_request(messages, model, **kw)\<close>, \<open>kw\<close> being the keyword arguments in the
  order of the call site. Python binds \<^verbatim>\<open>temperature\<close>, \<^verbatim>\<open>max_tokens\<close> and \<^verbatim>\<open>tools\<close> by
  name, with \<^verbatim>\<open>None\<close> for the ones not given, collects the others in \<^verbatim>\<open>kwargs\<close>, and
  raises a \<^verbatim>\<open>TypeError\<close> for a keyword given twice or one that names a positional
  argument already given.
\<close>

definition named_parameters :: "string list" where
  "named_parameters = [''temperature'', ''max_tokens'', ''tools'']"

definition keywords_ok :: "pydict \<Rightarrow> bool" where
  "keywords_ok kw =
     (distinct (map fst kw) \<and> ''messages'' \<notin> set (map fst kw) \<and> ''model'' \<notin> set (map fst kw))"

definition hash_request_call :: "pylib \<Rightarrow> pyval \<Rightarrow> pyval \<Rightarrow> pydict \<Rightarrow> pyerror + string" where
  "hash_request_call L messages model kw =
     (if \<not> keywords_ok kw then Inl TypeError
      else hash_request L messages model
             (dict_get kw ''temperature'' PNone)
             (dict_get kw ''max_tokens'' PNone)
             (dict_get kw ''tools'' PNone)
             (filter (\<lambda>p. fst p \<notin> set named_parameters) kw))"

text \<open>The keyword arguments that carry a value: the ones given as \<^verbatim>\<open>None\<close> left out.\<close>

definition given :: "pydict \<Rightarrow> pydict" where
  "given kw = filter (\<lambda>p. snd p \<noteq> PNone) kw"

section \<open>cache.py\<close>

text \<open>
  A row of the table \<^verbatim>\<open>cache\<close>. \<open>response\<close> is the TEXT column holding the serialised
  response, \<open>model\<close> the TEXT column \<^verbatim>\<open>model\<close>; the timestamps are the values of
  \<^verbatim>\<open>time.time()\<close>.
\<close>

record cache_row =
  key :: string
  response :: string
  model :: string
  created_at :: real
  expires_at :: "real option"
  hit_count :: int
  last_accessed :: real

text \<open>
  A \<^verbatim>\<open>Cache\<close> object with its database: the two settings of \<^verbatim>\<open>__init__\<close>, the rows of
  the table \<^verbatim>\<open>cache\<close> in the order of their rowids (the order of insertion), and the
  two counters of the table \<^verbatim>\<open>stats\<close>. \<^verbatim>\<open>key\<close> is the primary key of the table, so
  the keys of the rows are distinct.
\<close>

record cache =
  ttl_seconds :: "int option"
  max_entries :: "int option"
  rows :: "cache_row list"
  hits :: int
  misses :: int

text \<open>
  \<^verbatim>\<open>Cache.get\<close>, \<open>now\<close> being the value of \<^verbatim>\<open>time.time()\<close>. The result is the Python
  value returned: \<open>PNone\<close> for \<^verbatim>\<open>return None\<close>, and what \<^verbatim>\<open>json.loads(response_json)\<close>
  gives otherwise, which is \<open>PNone\<close> too when the text stored is \<^verbatim>\<open>null\<close>. The statements are
  committed before \<^verbatim>\<open>json.loads\<close> runs, so a text that does not parse raises after
  the counters are updated.
\<close>

definition Cache_get ::
  "pylib \<Rightarrow> real \<Rightarrow> string \<Rightarrow> cache \<Rightarrow> cache \<times> (pyerror + pyval)" where
  "Cache_get L now k c =
     (case find (\<lambda>r. key r = k) (rows c) of
        None \<Rightarrow> (c\<lparr>misses := misses c + 1\<rparr>, Inr PNone)
      | Some row \<Rightarrow>
          if (case expires_at row of Some e \<Rightarrow> e < now | None \<Rightarrow> False)
          then (c\<lparr>rows := filter (\<lambda>r. key r \<noteq> k) (rows c), misses := misses c + 1\<rparr>,
                Inr PNone)
          else (c\<lparr>rows := map (\<lambda>r. if key r = k
                                     then r\<lparr>hit_count := hit_count r + 1, last_accessed := now\<rparr>
                                     else r) (rows c),
                   hits := hits c + 1\<rparr>,
                case json_loads L (response row) of
                  None \<Rightarrow> Inl JSONDecodeError
                | Some v \<Rightarrow> Inr v))"

text \<open>
  \<^verbatim>\<open>INSERT OR REPLACE INTO cache\<close>: the row with the same key, if any, is deleted and the
  new row gets a fresh rowid, the largest.
\<close>

definition insert_or_replace :: "cache_row \<Rightarrow> cache_row list \<Rightarrow> cache_row list" where
  "insert_or_replace row rs = filter (\<lambda>r. key r \<noteq> key row) rs @ [row]"

text \<open>
  \<^verbatim>\<open>Cache._evict_lru\<close>. \<^verbatim>\<open>ORDER BY last_accessed ASC\<close> names no second column; the rows
  with the same \<^verbatim>\<open>last_accessed\<close> come in the order of their rowids, as a scan of the
  index on that column yields them (\<open>sort_key\<close> is stable). \<^verbatim>\<open>count > self.max_entries\<close>
  raises a \<^verbatim>\<open>TypeError\<close> when \<^verbatim>\<open>max_entries\<close> is \<^verbatim>\<open>None\<close>.
\<close>

definition Cache_evict_lru :: "cache \<Rightarrow> pyerror + cache" where
  "Cache_evict_lru c =
     (let count = int (length (rows c)) in
      case max_entries c of
        None \<Rightarrow> Inl TypeError
      | Some n \<Rightarrow>
          if count > n
          then let to_delete = count - n;
                   ks = map key (take (nat to_delete) (sort_key last_accessed (rows c)))
               in Inr (c\<lparr>rows := filter (\<lambda>r. key r \<notin> set ks) (rows c)\<rparr>)
          else Inr c)"

text \<open>
  What the column \<^verbatim>\<open>model TEXT NOT NULL\<close> holds for the value bound to it: a string as
  it is, a number (a \<^verbatim>\<open>bool\<close> is an \<^verbatim>\<open>int\<close>) as its text. \<^verbatim>\<open>None\<close> violates the
  constraint, an integer outside 64 bits does not fit an SQLite INTEGER, and \<^verbatim>\<open>sqlite3\<close>
  binds no list and no dictionary (\<^verbatim>\<open>ProgrammingError\<close>; \<^verbatim>\<open>InterfaceError\<close> before
  Python 3.11).
\<close>

fun bind_model :: "pylib \<Rightarrow> pyval \<Rightarrow> pyerror + string" where
  "bind_model L PNone = Inl IntegrityError"
| "bind_model L (PStr s) = Inr s"
| "bind_model L (PInt n) =
     (if - (2 ^ 63) \<le> n \<and> n < 2 ^ 63 then Inr (sqlite_text L (PInt n)) else Inl OverflowError)"
| "bind_model L (PBool b) = Inr (sqlite_text L (PBool b))"
| "bind_model L (PFloat x) = Inr (sqlite_text L (PFloat x))"
| "bind_model L (PList xs) = Inl ProgrammingError"
| "bind_model L (PDict d) = Inl ProgrammingError"

text \<open>The row that \<^verbatim>\<open>Cache.set\<close> writes.\<close>

definition fresh_row :: "pylib \<Rightarrow> real \<Rightarrow> string \<Rightarrow> pyval \<Rightarrow> string \<Rightarrow> int option \<Rightarrow> cache_row" where
  "fresh_row L now k resp m ttl =
     \<lparr>key = k,
      response = json_dumps L resp False ('', '', '': ''),
      model = m,
      created_at = now,
      expires_at = (case ttl of Some t \<Rightarrow> Some (now + real_of_int t) | None \<Rightarrow> None),
      hit_count = 0,
      last_accessed = now\<rparr>"

text \<open>\<^verbatim>\<open>ttl_seconds if ttl_seconds is not None else self.ttl_seconds\<close>.\<close>

definition effective_ttl :: "cache \<Rightarrow> int option \<Rightarrow> int option" where
  "effective_ttl c ttl = (case ttl of Some t \<Rightarrow> Some t | None \<Rightarrow> ttl_seconds c)"

text \<open>\<^verbatim>\<open>Cache.set\<close>, \<open>now\<close> being the value of \<^verbatim>\<open>time.time()\<close>. \<^verbatim>\<open>if self.max_entries:\<close>
  is false for \<^verbatim>\<open>None\<close> and for 0.\<close>

definition Cache_set ::
  "pylib \<Rightarrow> real \<Rightarrow> string \<Rightarrow> pyval \<Rightarrow> pyval \<Rightarrow> int option \<Rightarrow> cache \<Rightarrow> pyerror + cache" where
  "Cache_set L now k resp m ttl_override c =
     (let ttl = effective_ttl c ttl_override in
      case bind_model L m of
        Inl e \<Rightarrow> Inl e
      | Inr mv \<Rightarrow>
          let c1 = c\<lparr>rows := insert_or_replace (fresh_row L now k resp mv ttl) (rows c)\<rparr>
          in if (case max_entries c of Some n \<Rightarrow> n \<noteq> 0 | None \<Rightarrow> False)
             then Cache_evict_lru c1 else Inr c1)"

text \<open>\<^verbatim>\<open>Cache.delete\<close>.\<close>

definition Cache_delete :: "string \<Rightarrow> cache \<Rightarrow> cache \<times> bool" where
  "Cache_delete k c =
     (c\<lparr>rows := filter (\<lambda>r. key r \<noteq> k) (rows c)\<rparr>, \<exists>r \<in> set (rows c). key r = k)"

text \<open>\<^verbatim>\<open>Cache.clear\<close>, \<open>now\<close> being the value of \<^verbatim>\<open>time.time()\<close>.\<close>

definition Cache_clear :: "real \<Rightarrow> int option \<Rightarrow> cache \<Rightarrow> cache" where
  "Cache_clear now older_than_days c =
     (case older_than_days of
        Some d \<Rightarrow>
          let cutoff = now - real_of_int (d * 86400)
          in c\<lparr>rows := filter (\<lambda>r. \<not> created_at r < cutoff) (rows c), hits := 0, misses := 0\<rparr>
      | None \<Rightarrow> c\<lparr>rows := [], hits := 0, misses := 0\<rparr>)"

text \<open>A new \<^verbatim>\<open>Cache\<close> on a database that does not exist yet.\<close>

definition Cache_init :: "int option \<Rightarrow> int option \<Rightarrow> cache" where
  "Cache_init ttl mx = \<lparr>ttl_seconds = ttl, max_entries = mx, rows = [], hits = 0, misses = 0\<rparr>"



section \<open>proxy.py\<close>

text \<open>
  A Flask \<^verbatim>\<open>Response\<close>: status, body and headers. What a view function returns is a
  response, or a pair of a response and a status (\<^verbatim>\<open>return jsonify(...), 502\<close>).
\<close>

record response =
  status_code :: int
  data :: string
  headers :: "(string \<times> string) list"

datatype view_result = Resp response | RespStatus response int

text \<open>What \<^verbatim>\<open>requests.post\<close> does: the upstream replies with a status and a body, or
  the call raises a \<^verbatim>\<open>requests.RequestException\<close> with a message.\<close>

datatype upstream = Replied int string | RequestException string

type_synonym transport = "string \<Rightarrow> pyval \<Rightarrow> (string \<times> string) list \<Rightarrow> upstream"

record proxy =
  provider :: string
  target_url :: string

text \<open>\<^verbatim>\<open>response.headers[k] = v\<close>.\<close>

fun header_set :: "string \<Rightarrow> string \<Rightarrow> (string \<times> string) list \<Rightarrow> (string \<times> string) list" where
  "header_set k v [] = [(k, v)]"
| "header_set k v (p # ps) = (if fst p = k then (k, v) # ps else p # header_set k v ps)"

definition jsonify :: "pylib \<Rightarrow> pyval \<Rightarrow> response" where
  "jsonify L v =
     \<lparr>status_code = 200, data = jsonify_data L v,
      headers = [(''Content-Type'', ''application/json'')]\<rparr>"

text \<open>
  \<^verbatim>\<open>CacheProxy._forward_request\<close>. \<open>inbound\<close> looks a header of the inbound request up,
  \<open>post url json headers\<close> is the outcome of \<^verbatim>\<open>requests.post\<close>.
\<close>

definition forward_request ::
  "pylib \<Rightarrow> proxy \<Rightarrow> transport \<Rightarrow> (string \<Rightarrow> string option) \<Rightarrow> pyval \<Rightarrow> view_result" where
  "forward_request L P post inbound payload =
     (let path = (if provider P = ''anthropic'' then ''/messages'' else ''/chat/completions'');
          url = target_url P @ path;
          hs = fold (\<lambda>k hs. case inbound k of Some v \<Rightarrow> header_set k v hs | None \<Rightarrow> hs)
                 [''Authorization'', ''X-Api-Key'', ''Anthropic-Version'', ''Content-Type''] [];
          hs = (if ''Content-Type'' \<notin> set (map fst hs)
                then header_set ''Content-Type'' ''application/json'' hs else hs)
      in case post url payload hs of
           Replied st content \<Rightarrow>
             Resp \<lparr>status_code = st, data = content,
                   headers = [(''Content-Type'', ''application/json'')]\<rparr>
         | RequestException msg \<Rightarrow>
             RespStatus (jsonify L (PDict [(''error'', PStr msg)])) 502)"

text \<open>
  The calls a request handler makes, in order: the fingerprint, the read and the write of
  the cache (with the key), and the call of the transport (with the payload).
\<close>

datatype event = HashRequest | CacheGet string | CacheSet string | Forward pyval

text \<open>
  \<^verbatim>\<open>CacheProxy._handle_chat_completion\<close>. \<open>payload\<close> is \<^verbatim>\<open>request.get_json()\<close>,
  \<open>now_get\<close> and \<open>now_set\<close> are the values of \<^verbatim>\<open>time.time()\<close> in \<^verbatim>\<open>Cache.get\<close> and
  \<^verbatim>\<open>Cache.set\<close>. The result is the cache after the call, the calls made, and what the
  method returns or raises. \<^verbatim>\<open>result.status_code\<close> exists on a response, not on a pair.
\<close>

definition handle_chat_completion ::
  "pylib \<Rightarrow> proxy \<Rightarrow> transport \<Rightarrow> (string \<Rightarrow> string option) \<Rightarrow> real \<Rightarrow> real \<Rightarrow> pyval \<Rightarrow> cache
     \<Rightarrow> cache \<times> event list \<times> (pyerror + view_result)" where
  "handle_chat_completion L P post inbound now_get now_set payload c =
     (case payload of
        PDict d \<Rightarrow>
          let messages = dict_get d ''messages'' (PList []);
              model = dict_get d ''model'' (PStr ''unknown'');
              temperature = dict_get d ''temperature'' PNone;
              max_tokens = dict_get d ''max_tokens'' PNone;
              tools = dict_get d ''tools'' PNone
          in if truthy (dict_get d ''stream'' (PBool False))
             then (c, [Forward payload], Inr (forward_request L P post inbound payload))
             else
               (case hash_request L messages model temperature max_tokens tools [] of
                  Inl e \<Rightarrow> (c, [HashRequest], Inl e)
                | Inr cache_key \<Rightarrow>
                    (case Cache_get L now_get cache_key c of
                       (c1, Inl e) \<Rightarrow> (c1, [HashRequest, CacheGet cache_key], Inl e)
                     | (c1, Inr cached) \<Rightarrow>
                         if cached \<noteq> PNone
                         then (c1, [HashRequest, CacheGet cache_key],
                               Inr (Resp ((jsonify L cached)
                                 \<lparr>headers := header_set ''X-Cache'' ''HIT''
                                                (headers (jsonify L cached))\<rparr>)))
                         else
                           (case forward_request L P post inbound payload of
                              RespStatus r st \<Rightarrow>
                                (c1, [HashRequest, CacheGet cache_key, Forward payload],
                                 Inl AttributeError)
                            | Resp result \<Rightarrow>
                                if status_code result = 200
                                then
                                  (case json_loads L (data result) of
                                     None \<Rightarrow>
                                       (c1, [HashRequest, CacheGet cache_key, Forward payload],
                                        Inl JSONDecodeError)
                                   | Some response_data \<Rightarrow>
                                       (case Cache_set L now_set cache_key response_data model
                                               None c1 of
                                          Inl e \<Rightarrow>
                                            (c1, [HashRequest, CacheGet cache_key,
                                                  Forward payload, CacheSet cache_key],
                                             Inl e)
                                        | Inr c2 \<Rightarrow>
                                            (c2, [HashRequest, CacheGet cache_key,
                                                  Forward payload, CacheSet cache_key],
                                             Inr (Resp ((jsonify L response_data)
                                               \<lparr>headers := header_set ''X-Cache'' ''MISS''
                                                  (headers (jsonify L response_data))\<rparr>)))))
                                else (c1, [HashRequest, CacheGet cache_key, Forward payload],
                                      Inr (Resp result)))))
      | _ \<Rightarrow> (c, [], Inl AttributeError))"

text \<open>The test \<^verbatim>\<open>data.get("stream", False)\<close> of the handler, on the payload.\<close>

definition streaming :: "pyval \<Rightarrow> bool" where
  "streaming payload =
     (case payload of PDict d \<Rightarrow> truthy (dict_get d ''stream'' (PBool False)) | _ \<Rightarrow> False)"

text \<open>
  What the caller receives from Flask for the outcome of a view function: the response,
  the response with the status of the pair, or status 500 for an exception that no
  handler catches.
\<close>

fun caller_status :: "pyerror + view_result \<Rightarrow> int" where
  "caller_status (Inl e) = 500"
| "caller_status (Inr (Resp r)) = status_code r"
| "caller_status (Inr (RespStatus r st)) = st"

fun caller_header :: "string \<Rightarrow> pyerror + view_result \<Rightarrow> string option" where
  "caller_header k (Inl e) = None"
| "caller_header k (Inr (Resp r)) = map_of (headers r) k"
| "caller_header k (Inr (RespStatus r st)) = map_of (headers r) k"

text \<open>
  An inbound request with what its environment does while it is handled: the headers, the
  payload, the transport and the two clock readings.
\<close>

record inbound_request =
  req_headers :: "string \<Rightarrow> string option"
  req_json :: pyval
  req_post :: transport
  req_now_get :: real
  req_now_set :: real

text \<open>The proxy handling requests one after the other on the same cache.\<close>

fun serve ::
  "pylib \<Rightarrow> proxy \<Rightarrow> inbound_request list \<Rightarrow> cache
     \<Rightarrow> cache \<times> event list \<times> (pyerror + view_result) list" where
  "serve L P [] c = (c, [], [])"
| "serve L P (q # qs) c =
     (case handle_chat_completion L P (req_post q) (req_headers q)
             (req_now_get q) (req_now_set q) (req_json q) c of
        (c1, evs, out) \<Rightarrow>
          (case serve L P qs c1 of
             (c2, evs', outs) \<Rightarrow> (c2, evs @ evs', out # outs)))"

section \<open>A stand-in library for the examples\<close>

text \<open>
  The theorems hold for every library. The examples run them with this one: the digest
  and the encoding return their argument, \<open>json_dumps\<close> of a dictionary writes its keys and
  that of \<^verbatim>\<open>None\<close> the text \<^verbatim>\<open>null\<close>, \<open>json_loads\<close> reads two texts and \<open>sqlite_text\<close>
  writes one number.
\<close>

definition example_lib :: pylib where
  "example_lib =
     \<lparr>sha256_hexdigest = (\<lambda>b. b),
      str_encode = (\<lambda>s. s),
      json_dumps = (\<lambda>v sort_keys separators.
                      case v of PDict d \<Rightarrow> concat (map fst d) | PNone \<Rightarrow> ''null'' | _ \<Rightarrow> []),
      json_loads = (\<lambda>s. if s = ''id'' then Some (PDict [(''id'', PInt 7)])
                        else if s = ''null'' then Some PNone else None),
      jsonify_data = (\<lambda>v. case v of PDict d \<Rightarrow> concat (map fst d) | _ \<Rightarrow> []),
      sqlite_text = (\<lambda>v. case v of PInt n \<Rightarrow> (if n = 5 then ''5'' else []) | _ \<Rightarrow> [])\<rparr>"

definition example_messages :: pyval where
  "example_messages = PList [PDict [(''role'', PStr ''user''), (''content'', PStr ''hi'')]]"

text \<open>A cache with room for two entries that holds a live entry and an expired one.\<close>

definition example_cache :: cache where
  "example_cache =
     \<lparr>ttl_seconds = Some 3600, max_entries = Some 2,
      rows = [\<lparr>key = ''live'', response = ''id'', model = ''gpt-x'', created_at = 10,
               expires_at = Some 200, hit_count = 3, last_accessed = 20\<rparr>,
              \<lparr>key = ''old'', response = ''id'', model = ''gpt-x'', created_at = 15,
               expires_at = Some 50, hit_count = 0, last_accessed = 30\<rparr>],
      hits = 5, misses = 2\<rparr>"

definition example_proxy :: proxy where
  "example_proxy = \<lparr>provider = ''openai'', target_url = ''https://api.openai.com/v1''\<rparr>"

definition example_payload :: pyval where
  "example_payload = PDict [(''model'', PStr ''gpt-x''), (''messages'', example_messages)]"

definition example_stream_payload :: pyval where
  "example_stream_payload =
     PDict [(''model'', PStr ''gpt-x''), (''messages'', example_messages), (''stream'', PBool True)]"

text \<open>Transports that give the same outcome for every call, and a request with none of
  the headers that are forwarded.\<close>

definition upstream_replies :: "int \<Rightarrow> string \<Rightarrow> transport" where
  "upstream_replies st content = (\<lambda>url payload hs. Replied st content)"

definition upstream_unreachable :: "string \<Rightarrow> transport" where
  "upstream_unreachable msg = (\<lambda>url payload hs. RequestException msg)"

definition no_headers :: "string \<Rightarrow> string option" where
  "no_headers = (\<lambda>k. None)"

section \<open>The fingerprint\<close>

lemma filter_key_single:
  "distinct (map fst xs) \<Longrightarrow> p \<in> set xs \<Longrightarrow> filter (\<lambda>x. fst p = fst x) xs = [p]"
proof (induction xs)
  case Nil then show ?case by simp
next
  case (Cons a xs)
  show ?case
  proof (cases "a = p")
    case True
    with Cons.prems have "\<forall>x\<in>set xs. fst x \<noteq> fst p" by (auto simp: image_iff)
    then have "filter (\<lambda>x. fst p = fst x) xs = []" by (auto simp: filter_empty_conv)
    with True show ?thesis by simp
  next
    case False
    with Cons.prems have "p \<in> set xs" by simp
    moreover from this Cons.prems have "fst a \<noteq> fst p" by (auto simp: image_iff)
    ultimately show ?thesis using Cons by auto
  qed
qed

lemma sort_key_fst_unique:
  assumes "distinct (map fst xs)" "distinct (map fst ys)" "set xs = set ys"
  shows "sort_key fst xs = sort_key fst ys"
proof (rule properties_for_sort_key)
  have dx: "distinct xs" and dy: "distinct ys"
    using assms(1,2) by (simp_all add: distinct_map)
  then have "mset ys = mset xs"
    using assms(3) by (simp add: set_eq_iff_mset_eq_distinct)
  then show "mset (sort_key fst ys) = mset xs" by simp
  show "sorted (map fst (sort_key fst ys))" by simp
  fix k assume "k \<in> set (sort_key fst ys)"
  then have k: "k \<in> set ys" by simp
  have "filter (\<lambda>x. fst k = fst x) (sort_key fst ys) = filter (\<lambda>x. fst k = fst x) ys"
    using sort_key_stable [of fst "fst k" ys] by (simp add: eq_commute)
  also have "\<dots> = [k]" using assms(2) k by (rule filter_key_single)
  also have "\<dots> = filter (\<lambda>x. fst k = fst x) xs"
    using assms(1,3) k by (simp add: filter_key_single)
  finally show "filter (\<lambda>x. fst k = fst x) (sort_key fst ys) = filter (\<lambda>x. fst k = fst x) xs" .
qed

lemma fold_skip_none:
  "fold (\<lambda>(key, val) rd. if val \<noteq> PNone then dict_set key val rd else rd) xs =
   fold (\<lambda>(key, val) rd. dict_set key val rd) (filter (\<lambda>p. snd p \<noteq> PNone) xs)"
  by (induction xs) (auto split: prod.splits)

lemma dict_get_given_iff:
  assumes "distinct (map fst d)"
  shows "dict_get d k PNone = v \<longleftrightarrow>
         (if v = PNone then \<forall>w. (k, w) \<in> set (given d) \<longrightarrow> False else (k, v) \<in> set (given d))"
proof (cases "map_of d k")
  case None
  then have "\<forall>w. (k, w) \<notin> set d" by (metis map_of_eq_None_iff fst_conv image_eqI)
  with None show ?thesis by (auto simp: dict_get_def given_def)
next
  case (Some u)
  then have "(k, w) \<in> set d \<longleftrightarrow> w = u" for w
    using assms by (metis map_of_eq_Some_iff option.inject)
  with Some show ?thesis by (auto simp: dict_get_def given_def)
qed

lemma dict_get_given:
  assumes "distinct (map fst kw)" "distinct (map fst kw')" "set (given kw) = set (given kw')"
  shows "dict_get kw k PNone = dict_get kw' k PNone"
proof -
  let ?v = "dict_get kw' k PNone"
  have "if ?v = PNone then \<forall>w. (k, w) \<in> set (given kw') \<longrightarrow> False else (k, ?v) \<in> set (given kw')"
    using dict_get_given_iff [OF assms(2), of k ?v] by blast
  then have "if ?v = PNone then \<forall>w. (k, w) \<in> set (given kw) \<longrightarrow> False else (k, ?v) \<in> set (given kw)"
    by (simp only: assms(3))
  then show ?thesis
    using dict_get_given_iff [OF assms(1), of k ?v] by blast
qed

lemma given_filter_commute:
  "filter (\<lambda>p. snd p \<noteq> PNone) (filter P kw) = filter P (given kw)"
  by (induction kw) (auto simp: given_def)

lemma set_dict_set: "set (dict_set k v d) \<subseteq> insert (k, v) (set d)"
  by (induction d) auto

lemma keys_dict_set: "fst ` set (dict_set k v d) = insert k (fst ` set d)"
  by (induction d) auto

lemma set_fold_dict_set:
  "set (fold (\<lambda>(key, val) rd. if val \<noteq> PNone then dict_set key val rd else rd) xs rd)
     \<subseteq> set rd \<union> {p \<in> set xs. snd p \<noteq> PNone}"
proof (induction xs arbitrary: rd)
  case Nil
  show ?case by simp
next
  case (Cons x xs)
  obtain k v where x: "x = (k, v)" by (cases x)
  show ?case
  proof (cases "v = PNone")
    case True
    with Cons [of rd] x show ?thesis by auto
  next
    case False
    with Cons [of "dict_set k v rd"] set_dict_set [of k v rd] x show ?thesis by auto
  qed
qed

lemma keys_fold_dict_set:
  "fst ` set (fold (\<lambda>(key, val) rd. if val \<noteq> PNone then dict_set key val rd else rd) xs rd)
     \<subseteq> fst ` set rd \<union> fst ` set xs"
proof (induction xs arbitrary: rd)
  case Nil
  show ?case by simp
next
  case (Cons x xs)
  obtain k v where x: "x = (k, v)" by (cases x)
  show ?case
  proof (cases "v = PNone")
    case True
    with Cons [of rd] x show ?thesis by auto
  next
    case False
    with Cons [of "dict_set k v rd"] keys_dict_set [of k v rd] x show ?thesis by auto
  qed
qed

lemma hash_request_data_no_null:
  assumes "hash_request_data messages mdl temperature max_tokens tools kwargs = Inr rd"
    and "(k, PNone) \<in> set rd"
  shows "k = ''model'' \<and> mdl = PNone"
proof -
  obtain normalized where rd:
    "rd = fold (\<lambda>(key, val) rd. if val \<noteq> PNone then dict_set key val rd else rd)
            (sort_key fst kwargs)
            (let request_data = [(''messages'', PList (map PDict normalized)), (''model'', mdl)];
                 request_data = (if temperature \<noteq> PNone
                                 then dict_set ''temperature'' temperature request_data
                                 else request_data);
                 request_data = (if max_tokens \<noteq> PNone
                                 then dict_set ''max_tokens'' max_tokens request_data
                                 else request_data)
             in if truthy tools then dict_set ''tools'' tools request_data else request_data)"
    using assms(1) by (auto simp: hash_request_data_def Let_def split: sum.splits)
  have "tools \<noteq> PNone" if "truthy tools" using that by auto
  then have "(k, PNone) \<in> set [(''messages'', PList (map PDict normalized)), (''model'', mdl)]"
    using assms(2) set_fold_dict_set [of "sort_key fst kwargs"] unfolding rd
    by (fastforce simp: Let_def split: if_splits)
  then show ?thesis by auto
qed

lemma hash_request_data_keys:
  assumes "hash_request_data messages mdl temperature max_tokens tools kwargs = Inr rd"
  shows "fst ` set rd \<subseteq>
           {''messages'', ''model''} \<union> (if temperature \<noteq> PNone then {''temperature''} else {}) \<union>
           (if max_tokens \<noteq> PNone then {''max_tokens''} else {}) \<union>
           (if truthy tools then {''tools''} else {}) \<union> fst ` set kwargs"
proof -
  let ?F = "\<lambda>(key, val) rd. if val \<noteq> PNone then dict_set key val rd else rd"
  obtain rd0 where rd: "rd = fold ?F (sort_key fst kwargs) rd0"
    and rd0: "fst ` set rd0 \<subseteq>
           {''messages'', ''model''} \<union> (if temperature \<noteq> PNone then {''temperature''} else {}) \<union>
           (if max_tokens \<noteq> PNone then {''max_tokens''} else {}) \<union>
           (if truthy tools then {''tools''} else {})"
  proof (cases "normalize_messages messages")
    case (Inl e)
    with assms show ?thesis by (simp add: hash_request_data_def)
  next
    case (Inr normalized)
    let ?b = "[(''messages'', PList (map PDict normalized)), (''model'', mdl)]"
    let ?t = "if temperature \<noteq> PNone then dict_set ''temperature'' temperature ?b else ?b"
    let ?m = "if max_tokens \<noteq> PNone then dict_set ''max_tokens'' max_tokens ?t else ?t"
    let ?l = "if truthy tools then dict_set ''tools'' tools ?m else ?m"
    have "rd = fold ?F (sort_key fst kwargs) ?l"
      using assms Inr by (simp add: hash_request_data_def Let_def)
    moreover have "fst ` set ?l \<subseteq>
           {''messages'', ''model''} \<union> (if temperature \<noteq> PNone then {''temperature''} else {}) \<union>
           (if max_tokens \<noteq> PNone then {''max_tokens''} else {}) \<union>
           (if truthy tools then {''tools''} else {})"
      by (simp add: keys_dict_set)
    ultimately show ?thesis using that by blast
  qed
  have "fst ` set rd \<subseteq> fst ` set rd0 \<union> fst ` set kwargs"
    unfolding rd using keys_fold_dict_set [of "sort_key fst kwargs" rd0] by simp
  with rd0 show ?thesis by blast
qed

text \<open>
  C1. The keyword arguments of a call of \<^verbatim>\<open>hash_request\<close> are a list in the order of the
  call site. Two calls with the same messages and model whose keyword arguments, the ones
  given as \<^verbatim>\<open>None\<close> left out, are the same set return the same digest (or raise the same
  error): the order of the keywords does not matter, and a parameter given as \<^verbatim>\<open>None\<close>
  counts as one not given. No optional parameter is written as null: in the dictionary
  that is serialised, only the required \<^verbatim>\<open>model\<close> can hold \<^verbatim>\<open>None\<close>.
\<close>

theorem hash_request_order_and_omission:
  assumes "keywords_ok kw" and "keywords_ok kw'" and "set (given kw) = set (given kw')"
  shows "hash_request_call L messages mdl kw = hash_request_call L messages mdl kw' \<and>
         (\<forall>t mt tl kwargs rd k.
            hash_request_data messages mdl t mt tl kwargs = Inr rd \<longrightarrow>
            (k, PNone) \<in> set rd \<longrightarrow> k = ''model'')"
proof -
  let ?P = "\<lambda>p::string \<times> pyval. fst p \<notin> set named_parameters"
  have d: "distinct (map fst kw)" "distinct (map fst kw')"
    using assms(1,2) by (simp_all add: keywords_ok_def)
  have g: "dict_get kw k PNone = dict_get kw' k PNone" for k
    using d assms(3) by (rule dict_get_given)
  have "distinct (map fst (filter ?P (given kw)))" "distinct (map fst (filter ?P (given kw')))"
    using d by (simp_all add: given_def distinct_map_filter)
  moreover have "set (filter ?P (given kw)) = set (filter ?P (given kw'))"
    using assms(3) by simp
  ultimately have "sort_key fst (filter ?P (given kw)) = sort_key fst (filter ?P (given kw'))"
    by (rule sort_key_fst_unique)
  then have s: "filter (\<lambda>p. snd p \<noteq> PNone) (sort_key fst (filter ?P kw)) =
             filter (\<lambda>p. snd p \<noteq> PNone) (sort_key fst (filter ?P kw'))"
    by (simp only: filter_sort given_filter_commute)
  have "hash_request_data messages mdl t mt tl (filter ?P kw) =
        hash_request_data messages mdl t mt tl (filter ?P kw')" for t mt tl
    unfolding hash_request_data_def fold_skip_none s ..
  then have "hash_request_call L messages mdl kw = hash_request_call L messages mdl kw'"
    using assms(1,2) by (simp add: hash_request_call_def hash_request_def g)
  moreover have "k = ''model''"
    if "hash_request_data messages mdl t mt tl kwargs = Inr rd" "(k, PNone) \<in> set rd"
    for t mt tl kwargs rd k
    using hash_request_data_no_null [OF that] by simp
  ultimately show ?thesis by blast
qed

theorem hash_request_order_and_omission_witness:
  "keywords_ok [(''temperature'', PFloat 0.7), (''seed'', PInt 1), (''top_p'', PNone)] \<and>
   keywords_ok [(''seed'', PInt 1), (''max_tokens'', PNone), (''temperature'', PFloat 0.7)] \<and>
   set (given [(''temperature'', PFloat 0.7), (''seed'', PInt 1), (''top_p'', PNone)]) =
   set (given [(''seed'', PInt 1), (''max_tokens'', PNone), (''temperature'', PFloat 0.7)]) \<and>
   hash_request_call example_lib example_messages (PStr ''gpt-x'')
     [(''temperature'', PFloat 0.7), (''seed'', PInt 1), (''top_p'', PNone)] =
   hash_request_call example_lib example_messages (PStr ''gpt-x'')
     [(''seed'', PInt 1), (''max_tokens'', PNone), (''temperature'', PFloat 0.7)]"
proof -
  let ?a = "[(''temperature'', PFloat 0.7), (''seed'', PInt 1), (''top_p'', PNone)]"
  let ?b = "[(''seed'', PInt 1), (''max_tokens'', PNone), (''temperature'', PFloat 0.7)]"
  have a: "keywords_ok ?a" and b: "keywords_ok ?b"
    by (simp_all add: keywords_ok_def)
  have g: "set (given ?a) = set (given ?b)"
    by (auto simp: given_def)
  from hash_request_order_and_omission [OF a b g, of example_lib example_messages "PStr ''gpt-x''"]
  show ?thesis using a b g by blast
qed

text \<open>
  C10. \<^verbatim>\<open>hash_request\<close> with \<^verbatim>\<open>tools=[]\<close> returns what it returns with \<^verbatim>\<open>tools=None\<close>, the
  value of a parameter that is not given: \<^verbatim>\<open>if tools:\<close> is false for both, and the
  dictionary that is serialised has no key \<^verbatim>\<open>tools\<close> (no keyword of \<^verbatim>\<open>kwargs\<close> has the
  name of a parameter).
\<close>

theorem hash_request_empty_tools:
  "hash_request L messages mdl temperature max_tokens (PList []) kwargs =
   hash_request L messages mdl temperature max_tokens PNone kwargs \<and>
   (\<forall>rd. hash_request_data messages mdl temperature max_tokens (PList []) kwargs = Inr rd \<longrightarrow>
         ''tools'' \<notin> fst ` set kwargs \<longrightarrow> ''tools'' \<notin> fst ` set rd)"
proof -
  have "hash_request_data messages mdl temperature max_tokens (PList []) kwargs =
        hash_request_data messages mdl temperature max_tokens PNone kwargs"
    by (simp add: hash_request_data_def cong: sum.case_cong)
  then have "hash_request L messages mdl temperature max_tokens (PList []) kwargs =
        hash_request L messages mdl temperature max_tokens PNone kwargs"
    by (simp add: hash_request_def)
  moreover have "''tools'' \<notin> fst ` set rd"
    if rd: "hash_request_data messages mdl temperature max_tokens (PList []) kwargs = Inr rd"
      and kw: "''tools'' \<notin> fst ` set kwargs" for rd
    using hash_request_data_keys [OF rd] kw by (auto split: if_splits)
  ultimately show ?thesis by blast
qed

theorem hash_request_empty_tools_witness:
  "hash_request example_lib example_messages (PStr ''gpt-x'') PNone PNone (PList []) [] =
   Inr ''messagesmodel'' \<and>
   hash_request example_lib example_messages (PStr ''gpt-x'') PNone PNone PNone [] =
   Inr ''messagesmodel'' \<and>
   hash_request example_lib example_messages (PStr ''gpt-x'') PNone PNone
     (PList [PDict [(''type'', PStr ''function'')]]) [] = Inr ''messagesmodeltools''"
proof -
  have "hash_request example_lib example_messages (PStr ''gpt-x'') PNone PNone PNone [] =
        Inr ''messagesmodel''"
    by (simp add: hash_request_def hash_request_data_def normalize_messages_def
        normalize_message_def example_messages_def example_lib_def dict_get_def)
  moreover have "hash_request example_lib example_messages (PStr ''gpt-x'') PNone PNone
     (PList [PDict [(''type'', PStr ''function'')]]) [] = Inr ''messagesmodeltools''"
    by (simp add: hash_request_def hash_request_data_def normalize_messages_def
        normalize_message_def example_messages_def example_lib_def dict_get_def)
  ultimately show ?thesis
    using hash_request_empty_tools [of example_lib example_messages "PStr ''gpt-x''" PNone PNone "[]"]
    by simp
qed

section \<open>The cache store\<close>












lemma evict_keys_rows:
  assumes "distinct (map key rs)" and "set T \<subseteq> set rs"
  shows "filter (\<lambda>r. key r \<notin> set (map key T)) rs = filter (\<lambda>r. r \<notin> set T) rs"
proof (rule filter_cong [OF refl])
  fix r assume r: "r \<in> set rs"
  have inj: "inj_on key (set rs)" using assms(1) by (simp add: distinct_map)
  have "key r \<in> key ` set T \<longleftrightarrow> r \<in> set T"
    using inj r assms(2) by (auto dest: inj_onD)
  then show "(key r \<notin> set (map key T)) = (r \<notin> set T)" by simp
qed

lemma length_filter_not_in:
  assumes "distinct rs" and "distinct T" and "set T \<subseteq> set rs"
  shows "length (filter (\<lambda>r. r \<notin> set T) rs) = length rs - length T"
proof -
  have "length (filter (\<lambda>r. r \<in> set T) rs) = card ({x. x \<in> set T} \<inter> set rs)"
    using assms(1) by (rule distinct_length_filter)
  also have "{x. x \<in> set T} \<inter> set rs = set T" using assms(3) by auto
  also have "card (set T) = length T" using assms(2) by (rule distinct_card)
  finally have "length (filter (\<lambda>r. r \<in> set T) rs) = length T" .
  moreover have "length (filter (\<lambda>r. r \<in> set T) rs) + length (filter (\<lambda>r. \<not> r \<in> set T) rs) = length rs"
    by (rule sum_length_filter_compl)
  ultimately show ?thesis by simp
qed

lemma take_sorted_le_rest:
  assumes "r \<in> set (take m (sort_key f rs))" and "r' \<in> set rs" and "r' \<notin> set (take m (sort_key f rs))"
  shows "f r \<le> f r'"
proof -
  let ?s = "sort_key f rs"
  have "set ?s = set (take m ?s) \<union> set (drop m ?s)"
    by (metis append_take_drop_id set_append)
  with assms(2,3) have r': "r' \<in> set (drop m ?s)" by auto
  have "sorted (map f (take m ?s @ drop m ?s))" by simp
  then have "\<forall>x\<in>set (take m ?s). \<forall>y\<in>set (drop m ?s). f x \<le> f y"
    unfolding map_append sorted_append by auto
  with assms(1) r' show ?thesis by blast
qed

lemma Cache_evict_lru_over:
  assumes d: "distinct (map key (rows c))" and n: "max_entries c = Some n" "0 \<le> n"
    and over: "int (length (rows c)) > n"
    and ev: "Cache_evict_lru c = Inr c'"
  defines "victims \<equiv> take (nat (int (length (rows c)) - n)) (sort_key last_accessed (rows c))"
  shows "rows c' = filter (\<lambda>r. r \<notin> set victims) (rows c)"
    and "int (length victims) = int (length (rows c)) - n"
    and "int (length (rows c')) = n"
    and "set victims \<subseteq> set (rows c)"
    and "\<forall>r\<in>set victims. \<forall>r'\<in>set (rows c'). last_accessed r \<le> last_accessed r'"
proof -
  have sub: "set victims \<subseteq> set (rows c)"
    unfolding victims_def by (metis set_take_subset set_sort)
  show "set victims \<subseteq> set (rows c)" by (rule sub)
  have dr: "distinct (rows c)" using d by (simp add: distinct_map)
  then have dv: "distinct victims" unfolding victims_def by simp
  have "rows c' = filter (\<lambda>r. key r \<notin> set (map key victims)) (rows c)"
    using n over ev by (auto simp: Cache_evict_lru_def Let_def victims_def)
  then show rows: "rows c' = filter (\<lambda>r. r \<notin> set victims) (rows c)"
    using evict_keys_rows [OF d sub] by simp
  show lv: "int (length victims) = int (length (rows c)) - n"
    using n over unfolding victims_def by simp
  have "length (rows c') = length (rows c) - length victims"
    unfolding rows using dr dv sub by (rule length_filter_not_in)
  with lv n over show "int (length (rows c')) = n" by linarith
  show "\<forall>r\<in>set victims. \<forall>r'\<in>set (rows c'). last_accessed r \<le> last_accessed r'"
    unfolding rows victims_def by (auto intro: take_sorted_le_rest)
qed

lemma Cache_evict_lru_under:
  "max_entries c = Some n \<Longrightarrow> int (length (rows c)) \<le> n \<Longrightarrow> Cache_evict_lru c = Inr c"
  by (simp add: Cache_evict_lru_def)

lemma distinct_insert_or_replace:
  "distinct (map key rs) \<Longrightarrow> distinct (map key (insert_or_replace row rs))"
  by (auto simp: insert_or_replace_def distinct_map_filter)


lemma key_fresh_row [simp]: "key (fresh_row L now k resp m ttl) = k"
  by (simp add: fresh_row_def)

lemma last_accessed_fresh_row [simp]: "last_accessed (fresh_row L now k resp m ttl) = now"
  by (simp add: fresh_row_def)














lemma Cache_set_Inr:
  assumes "Cache_set L now k resp m ttl c = Inr c'"
  shows "\<exists>mv. bind_model L m = Inr mv \<and>
           (let c1 = c\<lparr>rows := insert_or_replace (fresh_row L now k resp mv (effective_ttl c ttl))
                                (rows c)\<rparr>
            in if (case max_entries c of Some n \<Rightarrow> n \<noteq> 0 | None \<Rightarrow> False)
               then Cache_evict_lru c1 else Inr c1) = Inr c'"
proof -
  obtain mv where mv: "bind_model L m = Inr mv"
    using assms by (auto simp: Cache_set_def Let_def split: sum.splits)
  with assms show ?thesis
    by (simp add: Cache_set_def Let_def)
qed

lemma Cache_get_keys:
  "map key (rows (fst (Cache_get L now k c))) = map key (rows c) \<or>
   map key (rows (fst (Cache_get L now k c))) = filter (\<lambda>x. x \<noteq> k) (map key (rows c))"
proof -
  have "map key (map (\<lambda>r. if key r = k then r\<lparr>hit_count := hit_count r + 1, last_accessed := now\<rparr>
                            else r) rs) = map key rs" for rs
    by (induction rs) auto
  moreover have "map key (filter (\<lambda>r. key r \<noteq> k) rs) = filter (\<lambda>x. x \<noteq> k) (map key rs)" for rs
    by (induction rs) auto
  ultimately show ?thesis
    by (auto simp: Cache_get_def split: option.splits)
qed

lemma lru_scenario:
  assumes "A \<noteq> B" "A \<noteq> C" "B \<noteq> C" "t1 \<le> t2" "t2 \<le> t3"
    and 1: "Cache_set L t1 A va ma ta (Cache_init d (Some 2)) = Inr c1"
    and 2: "Cache_set L t2 B vb mb tb c1 = Inr c2"
    and 3: "Cache_set L t3 C vc mc tc c2 = Inr c3"
  shows "map key (rows c3) = [B, C]"
proof -
  from Cache_set_Inr [OF 1] obtain mva where 1:
    "(let c0 = (Cache_init d (Some 2))\<lparr>rows := insert_or_replace
                  (fresh_row L t1 A va mva (effective_ttl (Cache_init d (Some 2)) ta))
                  (rows (Cache_init d (Some 2)))\<rparr>
      in if (case max_entries (Cache_init d (Some 2)) of Some n \<Rightarrow> n \<noteq> 0 | None \<Rightarrow> False)
         then Cache_evict_lru c0 else Inr c0) = Inr c1"
    by blast
  from Cache_set_Inr [OF 2] obtain mvb where 2:
    "(let c0 = c1\<lparr>rows := insert_or_replace (fresh_row L t2 B vb mvb (effective_ttl c1 tb)) (rows c1)\<rparr>
      in if (case max_entries c1 of Some n \<Rightarrow> n \<noteq> 0 | None \<Rightarrow> False)
         then Cache_evict_lru c0 else Inr c0) = Inr c2"
    by blast
  from Cache_set_Inr [OF 3] obtain mvc where 3:
    "(let c0 = c2\<lparr>rows := insert_or_replace (fresh_row L t3 C vc mvc (effective_ttl c2 tc)) (rows c2)\<rparr>
      in if (case max_entries c2 of Some n \<Rightarrow> n \<noteq> 0 | None \<Rightarrow> False)
         then Cache_evict_lru c0 else Inr c0) = Inr c3"
    by blast
  define a where "a = fresh_row L t1 A va mva (effective_ttl (Cache_init d (Some 2)) ta)"
  define b where "b = fresh_row L t2 B vb mvb (effective_ttl c1 tb)"
  define c where "c = fresh_row L t3 C vc mvc (effective_ttl c2 tc)"
  have k: "key a = A" "key b = B" "key c = C"
    and t: "last_accessed a = t1" "last_accessed b = t2" "last_accessed c = t3"
    by (simp_all add: a_def b_def c_def)
  have "Cache_evict_lru ((Cache_init d (Some 2))\<lparr>rows := [a]\<rparr>) = Inr c1"
    using 1 by (simp add: Cache_init_def insert_or_replace_def a_def)
  then have c1: "c1 = (Cache_init d (Some 2))\<lparr>rows := [a]\<rparr>"
    using Cache_evict_lru_under [of "(Cache_init d (Some 2))\<lparr>rows := [a]\<rparr>" 2]
    by (simp add: Cache_init_def)
  have "insert_or_replace b (rows c1) = [a, b]"
    using assms(1) by (simp add: c1 insert_or_replace_def k)
  then have "Cache_evict_lru ((Cache_init d (Some 2))\<lparr>rows := [a, b]\<rparr>) = Inr c2"
    using 2 by (simp add: c1 Cache_init_def b_def)
  then have c2: "c2 = (Cache_init d (Some 2))\<lparr>rows := [a, b]\<rparr>"
    using Cache_evict_lru_under [of "(Cache_init d (Some 2))\<lparr>rows := [a, b]\<rparr>" 2]
    by (simp add: Cache_init_def)
  have s: "sort_key last_accessed [a, b, c] = [a, b, c]"
    using assms(4,5) by (simp add: t)
  have "Cache_evict_lru (c2\<lparr>rows := insert_or_replace c (rows c2)\<rparr>) = Inr c3"
    using 3 by (simp add: c2 Cache_init_def c_def)
  moreover have "insert_or_replace c (rows c2) = [a, b, c]"
    using assms(2,3) by (simp add: c2 insert_or_replace_def k)
  ultimately have "rows c3 = filter (\<lambda>r. key r \<notin> set (map key (take 1 (sort_key last_accessed [a, b, c]))))
                           [a, b, c]"
    by (auto simp: c2 Cache_init_def Cache_evict_lru_def Let_def simp del: sort_key_simps)
  then have "rows c3 = filter (\<lambda>r. key r \<notin> set (map key (take 1 [a, b, c]))) [a, b, c]"
    by (simp only: s)
  then have "rows c3 = [b, c]"
    using assms(1,2) by (simp add: k)
  then show ?thesis by (simp add: k)
qed

text \<open>
  C5, amended. For a cache whose \<^verbatim>\<open>max_entries\<close> is at least 1 and whose keys are
  distinct, \<^verbatim>\<open>Cache.set\<close> inserts the row and then, when the number \<open>count\<close> of rows is
  greater than \<^verbatim>\<open>max_entries\<close>, removes exactly \<open>count - max_entries\<close> rows: the first
  ones of the rows sorted by \<^verbatim>\<open>last_accessed\<close>, rows with the same \<^verbatim>\<open>last_accessed\<close> in
  the order of their insertion. No removed row was accessed later than a row that stays,
  and \<^verbatim>\<open>max_entries\<close> rows stay; when \<open>count\<close> is not greater, no row is removed.
  \<^verbatim>\<open>Cache.get\<close> evicts nothing: the keys after it are the keys before it, or those
  without the key it looked up. With \<^verbatim>\<open>max_entries = 2\<close>, inserting three distinct keys
  A, B, C into an empty cache at times that do not decrease leaves B and C.
\<close>

theorem Cache_lru_eviction:
  assumes "distinct (map key (rows c))" and "max_entries c = Some n" and "1 \<le> n"
    and "Cache_set L now k resp m ttl c = Inr c'"
  shows "(\<exists>mv. bind_model L m = Inr mv \<and>
           (let rs = insert_or_replace (fresh_row L now k resp mv (effective_ttl c ttl)) (rows c);
                count = int (length rs);
                victims = take (nat (count - n)) (sort_key last_accessed rs)
            in (count \<le> n \<longrightarrow> rows c' = rs) \<and>
               (count > n \<longrightarrow>
                  rows c' = filter (\<lambda>r. r \<notin> set victims) rs \<and> set victims \<subseteq> set rs \<and>
                  int (length victims) = count - n \<and> int (length (rows c')) = n \<and>
                  (\<forall>r\<in>set victims. \<forall>r'\<in>set (rows c'). last_accessed r \<le> last_accessed r')))) \<and>
         (\<forall>L' now' k' c0.
            map key (rows (fst (Cache_get L' now' k' c0))) = map key (rows c0) \<or>
            map key (rows (fst (Cache_get L' now' k' c0))) = filter (\<lambda>x. x \<noteq> k') (map key (rows c0))) \<and>
         (\<forall>A B C va vb vc ma mb mc ta tb tc t1 t2 t3 d c1 c2 c3.
            A \<noteq> B \<longrightarrow> A \<noteq> C \<longrightarrow> B \<noteq> C \<longrightarrow> t1 \<le> t2 \<longrightarrow> t2 \<le> t3 \<longrightarrow>
            Cache_set L t1 A va ma ta (Cache_init d (Some 2)) = Inr c1 \<longrightarrow>
            Cache_set L t2 B vb mb tb c1 = Inr c2 \<longrightarrow>
            Cache_set L t3 C vc mc tc c2 = Inr c3 \<longrightarrow>
            map key (rows c3) = [B, C])"
proof -
  from Cache_set_Inr [OF assms(4)] obtain mv where mv: "bind_model L m = Inr mv"
    and set: "(let c1 = c\<lparr>rows := insert_or_replace (fresh_row L now k resp mv (effective_ttl c ttl))
                                   (rows c)\<rparr>
               in if (case max_entries c of Some n \<Rightarrow> n \<noteq> 0 | None \<Rightarrow> False)
                  then Cache_evict_lru c1 else Inr c1) = Inr c'"
    by blast
  let ?rs = "insert_or_replace (fresh_row L now k resp mv (effective_ttl c ttl)) (rows c)"
  let ?c1 = "c\<lparr>rows := ?rs\<rparr>"
  have c': "Cache_evict_lru ?c1 = Inr c'"
    using set assms(2,3) by (simp add: Let_def)
  have d: "distinct (map key (rows ?c1))"
    using assms(1) by (simp add: distinct_insert_or_replace)
  have n: "max_entries ?c1 = Some n" "0 \<le> n" using assms(2,3) by simp_all
  have under: "rows c' = ?rs" if "int (length ?rs) \<le> n"
    using Cache_evict_lru_under [of ?c1 n] that n c' by simp
  have over: "rows c' = filter (\<lambda>r. r \<notin> set (take (nat (int (length ?rs) - n)) (sort_key last_accessed ?rs))) ?rs \<and>
      set (take (nat (int (length ?rs) - n)) (sort_key last_accessed ?rs)) \<subseteq> set ?rs \<and>
      int (length (take (nat (int (length ?rs) - n)) (sort_key last_accessed ?rs))) = int (length ?rs) - n \<and>
      int (length (rows c')) = n \<and>
      (\<forall>r\<in>set (take (nat (int (length ?rs) - n)) (sort_key last_accessed ?rs)).
         \<forall>r'\<in>set (rows c'). last_accessed r \<le> last_accessed r')"
    if "int (length ?rs) > n"
    using Cache_evict_lru_over [OF d n _ c'] that by simp
  from under over have "(let rs = ?rs;
              count = int (length rs);
              victims = take (nat (count - n)) (sort_key last_accessed rs)
          in (count \<le> n \<longrightarrow> rows c' = rs) \<and>
             (count > n \<longrightarrow>
                rows c' = filter (\<lambda>r. r \<notin> set victims) rs \<and> set victims \<subseteq> set rs \<and>
                int (length victims) = count - n \<and> int (length (rows c')) = n \<and>
                (\<forall>r\<in>set victims. \<forall>r'\<in>set (rows c'). last_accessed r \<le> last_accessed r')))"
    unfolding Let_def by blast
  with mv have A: "\<exists>mv. bind_model L m = Inr mv \<and>
           (let rs = insert_or_replace (fresh_row L now k resp mv (effective_ttl c ttl)) (rows c);
                count = int (length rs);
                victims = take (nat (count - n)) (sort_key last_accessed rs)
            in (count \<le> n \<longrightarrow> rows c' = rs) \<and>
               (count > n \<longrightarrow>
                  rows c' = filter (\<lambda>r. r \<notin> set victims) rs \<and> set victims \<subseteq> set rs \<and>
                  int (length victims) = count - n \<and> int (length (rows c')) = n \<and>
                  (\<forall>r\<in>set victims. \<forall>r'\<in>set (rows c'). last_accessed r \<le> last_accessed r')))"
    by (intro exI [of _ mv] conjI)
  have B: "\<forall>L' now' k' c0.
            map key (rows (fst (Cache_get L' now' k' c0))) = map key (rows c0) \<or>
            map key (rows (fst (Cache_get L' now' k' c0))) = filter (\<lambda>x. x \<noteq> k') (map key (rows c0))"
    by (intro allI) (rule Cache_get_keys)
  have C: "\<forall>A B C va vb vc ma mb mc ta tb tc t1 t2 t3 d c1 c2 c3.
            A \<noteq> B \<longrightarrow> A \<noteq> C \<longrightarrow> B \<noteq> C \<longrightarrow> t1 \<le> t2 \<longrightarrow> t2 \<le> t3 \<longrightarrow>
            Cache_set L t1 A va ma ta (Cache_init d (Some 2)) = Inr c1 \<longrightarrow>
            Cache_set L t2 B vb mb tb c1 = Inr c2 \<longrightarrow>
            Cache_set L t3 C vc mc tc c2 = Inr c3 \<longrightarrow>
            map key (rows c3) = [B, C]"
    by (intro allI impI) (rule lru_scenario)
  from A B C show ?thesis by (intro conjI) assumption+
qed

theorem Cache_lru_eviction_witness:
  "distinct (map key (rows example_cache)) \<and> max_entries example_cache = Some 2 \<and>
   (\<exists>c'. Cache_set example_lib 100 ''new'' (PDict [(''id'', PInt 7)]) (PStr ''gpt-x'') None
           example_cache = Inr c' \<and>
         map key (rows c') = [''old'', ''new''] \<and> int (length (rows c')) = 2) \<and>
   (\<exists>c1 c2 c3.
      Cache_set example_lib 1 ''A'' (PDict []) (PStr ''gpt-x'') None (Cache_init None (Some 2)) = Inr c1 \<and>
      Cache_set example_lib 2 ''B'' (PDict []) (PStr ''gpt-x'') None c1 = Inr c2 \<and>
      Cache_set example_lib 3 ''C'' (PDict []) (PStr ''gpt-x'') None c2 = Inr c3 \<and>
      map key (rows c3) = [''B'', ''C''])"
proof -
  have d: "distinct (map key (rows example_cache))" and n: "max_entries example_cache = Some 2"
    by (simp_all add: example_cache_def)
  obtain c' where c': "Cache_set example_lib 100 ''new'' (PDict [(''id'', PInt 7)]) (PStr ''gpt-x'') None
           example_cache = Inr c'"
    by (simp add: Cache_set_def Cache_evict_lru_def insert_or_replace_def example_cache_def Let_def)
  have one: "(1::int) \<le> 2" by simp
  note th = Cache_lru_eviction [OF d n one c']
  from th [THEN conjunct1] obtain mv where
    body: "(let rs = insert_or_replace
                (fresh_row example_lib 100 ''new'' (PDict [(''id'', PInt 7)]) mv
                   (effective_ttl example_cache None)) (rows example_cache);
                count = int (length rs);
                victims = take (nat (count - 2)) (sort_key last_accessed rs)
            in (count \<le> 2 \<longrightarrow> rows c' = rs) \<and>
               (count > 2 \<longrightarrow>
                  rows c' = filter (\<lambda>r. r \<notin> set victims) rs \<and> set victims \<subseteq> set rs \<and>
                  int (length victims) = count - 2 \<and> int (length (rows c')) = 2 \<and>
                  (\<forall>r\<in>set victims. \<forall>r'\<in>set (rows c'). last_accessed r \<le> last_accessed r')))"
    by blast
  have count: "int (length (insert_or_replace
              (fresh_row example_lib 100 ''new'' (PDict [(''id'', PInt 7)]) mv
                 (effective_ttl example_cache None)) (rows example_cache))) = 3"
    by (simp add: insert_or_replace_def example_cache_def)
  have over: "(2::int) < 3" by simp
  have len: "int (length (rows c')) = 2"
    using body [unfolded Let_def count, THEN conjunct2, rule_format, OF over]
    by blast
  have "map_sum id (\<lambda>c. map key (rows c))
          (Cache_set example_lib 100 ''new'' (PDict [(''id'', PInt 7)]) (PStr ''gpt-x'') None
             example_cache) = Inr [''old'', ''new'']"
    by (simp add: Cache_set_def Cache_evict_lru_def insert_or_replace_def fresh_row_def
        effective_ttl_def example_cache_def example_lib_def Let_def)
  then have keys: "map key (rows c') = [''old'', ''new'']" by (simp add: c')
  let ?row = "\<lambda>k t. \<lparr>key = k, response = [], model = ''gpt-x'', created_at = t,
                       expires_at = None, hit_count = 0, last_accessed = t\<rparr>"
  let ?cache = "\<lambda>rs. \<lparr>ttl_seconds = None, max_entries = Some 2, rows = rs,
                        hits = 0, misses = 0\<rparr>"
  define c1 where "c1 = ?cache [?row ''A'' 1]"
  define c2 where "c2 = ?cache [?row ''A'' 1, ?row ''B'' 2]"
  define c3 where "c3 = ?cache [?row ''B'' 2, ?row ''C'' 3]"
  have c1: "Cache_set example_lib 1 ''A'' (PDict []) (PStr ''gpt-x'') None
      (Cache_init None (Some 2)) = Inr c1"
    by (simp add: Cache_set_def Cache_evict_lru_def insert_or_replace_def fresh_row_def
        effective_ttl_def Cache_init_def example_lib_def c1_def)
  have c2: "Cache_set example_lib 2 ''B'' (PDict []) (PStr ''gpt-x'') None c1 = Inr c2"
    by (simp add: Cache_set_def Cache_evict_lru_def insert_or_replace_def fresh_row_def
        effective_ttl_def example_lib_def c1_def c2_def)
  have c3: "Cache_set example_lib 3 ''C'' (PDict []) (PStr ''gpt-x'') None c2 = Inr c3"
    by (simp add: Cache_set_def Cache_evict_lru_def insert_or_replace_def fresh_row_def
        effective_ttl_def example_lib_def c2_def c3_def)
  have "map key (rows c3) = [''B'', ''C'']"
    using th [THEN conjunct2, THEN conjunct2, rule_format, OF _ _ _ _ _ c1 c2 c3] by simp
  with d n c' keys len c1 c2 c3 show ?thesis by simp
qed

text \<open>
  With \<^verbatim>\<open>max_entries = 0\<close> the test \<^verbatim>\<open>if self.max_entries:\<close> is false and \<^verbatim>\<open>Cache.set\<close>
  evicts nothing: one row is stored, more than the maximum. With \<^verbatim>\<open>max_entries = -1\<close>
  the number of rows to delete is 2 for the one row there is.
\<close>

theorem Cache_lru_eviction_counterexample:
  "Cache_set example_lib 1 ''A'' (PDict []) (PStr ''gpt-x'') None (Cache_init None (Some 0)) =
     Inr \<lparr>ttl_seconds = None, max_entries = Some 0,
          rows = [\<lparr>key = ''A'', response = [], model = ''gpt-x'', created_at = 1,
                   expires_at = None, hit_count = 0, last_accessed = 1\<rparr>],
          hits = 0, misses = 0\<rparr> \<and>
   Cache_set example_lib 1 ''A'' (PDict []) (PStr ''gpt-x'') None (Cache_init None (Some (- 1))) =
     Inr \<lparr>ttl_seconds = None, max_entries = Some (- 1), rows = [], hits = 0, misses = 0\<rparr>"
  by (simp add: Cache_set_def Cache_init_def Cache_evict_lru_def insert_or_replace_def
      fresh_row_def effective_ttl_def example_lib_def)

text \<open>
  C6. \<^verbatim>\<open>Cache.clear(older_than_days=d)\<close> at time \<open>now\<close> keeps, in their order, exactly the
  rows whose \<^verbatim>\<open>created_at\<close> is not earlier than \<open>now - d * 86400\<close>, and removes the
  others; \<^verbatim>\<open>Cache.clear()\<close> removes every row; either call sets \<^verbatim>\<open>hits\<close> and \<^verbatim>\<open>misses\<close>
  to 0 and leaves the settings.
\<close>

theorem Cache_clear_effects:
  "rows (Cache_clear now (Some d) c) =
     filter (\<lambda>r. \<not> created_at r < now - real_of_int d * 86400) (rows c) \<and>
   set (rows c) - set (rows (Cache_clear now (Some d) c)) =
     {r \<in> set (rows c). created_at r < now - real_of_int d * 86400} \<and>
   rows (Cache_clear now None c) = [] \<and>
   hits (Cache_clear now older_than_days c) = 0 \<and>
   misses (Cache_clear now older_than_days c) = 0 \<and>
   ttl_seconds (Cache_clear now older_than_days c) = ttl_seconds c \<and>
   max_entries (Cache_clear now older_than_days c) = max_entries c"
proof -
  have kept: "rows (Cache_clear now (Some d) c) =
     filter (\<lambda>r. \<not> created_at r < now - real_of_int d * 86400) (rows c)"
    by (simp add: Cache_clear_def)
  have removed: "set (rows c) - set (rows (Cache_clear now (Some d) c)) =
     {r \<in> set (rows c). created_at r < now - real_of_int d * 86400}"
    unfolding kept by auto
  have all: "rows (Cache_clear now None c) = []"
    by (simp add: Cache_clear_def)
  have stats: "hits (Cache_clear now older_than_days c) = 0"
    "misses (Cache_clear now older_than_days c) = 0"
    by (simp_all add: Cache_clear_def Let_def split: option.splits)
  have settings: "ttl_seconds (Cache_clear now older_than_days c) = ttl_seconds c"
    "max_entries (Cache_clear now older_than_days c) = max_entries c"
    by (simp_all add: Cache_clear_def Let_def split: option.splits)
  from kept removed all stats settings show ?thesis by (intro conjI)
qed

section \<open>The proxy\<close>

lemma handle_streaming:
  assumes "streaming payload"
  shows "handle_chat_completion L P post inbound now_get now_set payload c =
           (c, [Forward payload], Inr (forward_request L P post inbound payload))"
  using assms by (cases payload) (simp_all add: streaming_def handle_chat_completion_def Let_def)

lemma forward_request_replied:
  assumes "\<forall>url hs. post url payload hs = Replied st content"
  shows "forward_request L P post inbound payload =
           Resp \<lparr>status_code = st, data = content,
                 headers = [(''Content-Type'', ''application/json'')]\<rparr>"
  using assms by (simp add: forward_request_def Let_def)

lemma example_key:
  "hash_request example_lib example_messages (PStr ''gpt-x'') PNone PNone PNone [] =
     Inr ''messagesmodel''"
  by (simp add: hash_request_def hash_request_data_def normalize_messages_def
      normalize_message_def example_messages_def example_lib_def dict_get_def)

lemma map_of_header_set: "map_of (header_set k v hs) k' = (if k' = k then Some v else map_of hs k')"
  by (induction hs) auto

lemma forward_request_no_X_Cache:
  "caller_header ''X-Cache'' (Inr (forward_request L P post inbound payload)) = None"
  by (simp add: forward_request_def Let_def jsonify_def split: upstream.splits)

lemma handle_not_streaming:
  assumes "\<not> streaming payload"
    and "handle_chat_completion L P post inbound now_get now_set payload c = (c', evs, Inr out)"
  shows "\<exists>k. (evs = [HashRequest, CacheGet k] \<and>
              caller_header ''X-Cache'' (Inr out) = Some ''HIT'') \<or>
             (evs = [HashRequest, CacheGet k, Forward payload, CacheSet k] \<and>
              caller_header ''X-Cache'' (Inr out) = Some ''MISS'') \<or>
             (evs = [HashRequest, CacheGet k, Forward payload] \<and>
              out = forward_request L P post inbound payload \<and>
              caller_header ''X-Cache'' (Inr out) = None \<and> caller_status (Inr out) \<noteq> 200)"
proof (cases payload)
  case (PDict d)
  let ?h = "hash_request L (dict_get d ''messages'' (PList [])) (dict_get d ''model'' (PStr ''unknown''))
              (dict_get d ''temperature'' PNone) (dict_get d ''max_tokens'' PNone)
              (dict_get d ''tools'' PNone) []"
  from assms(1) PDict have ns: "\<not> truthy (dict_get d ''stream'' (PBool False))"
    by (simp add: streaming_def)
  obtain k where k: "?h = Inr k"
    using assms(2) PDict ns
    by (cases ?h) (simp_all add: handle_chat_completion_def Let_def)
  obtain c1 cached where g: "Cache_get L now_get k c = (c1, Inr cached)"
    using assms(2) PDict ns k
    by (cases "Cache_get L now_get k c"; cases "snd (Cache_get L now_get k c)")
       (simp_all add: handle_chat_completion_def Let_def)
  show ?thesis
  proof (cases "cached \<noteq> PNone")
    case True
    then have "evs = [HashRequest, CacheGet k]"
      "out = Resp ((jsonify L cached)\<lparr>headers := header_set ''X-Cache'' ''HIT'' (headers (jsonify L cached))\<rparr>)"
      using assms(2) PDict ns k g by (simp_all add: handle_chat_completion_def Let_def)
    then show ?thesis by (simp add: map_of_header_set)
  next
    case False
    let ?f = "forward_request L P post inbound payload"
    from False assms(2) PDict ns k g obtain result where r: "?f = Resp result"
      by (cases ?f) (simp_all add: handle_chat_completion_def Let_def)
    show ?thesis
    proof (cases "status_code result = 200")
      case ok: True
      from False assms(2) PDict ns k g r ok obtain response_data where
        l: "json_loads L (data result) = Some response_data"
        by (cases "json_loads L (data result)") (simp_all add: handle_chat_completion_def Let_def)
      from False assms(2) PDict ns k g r ok l have
        "evs = [HashRequest, CacheGet k, Forward payload, CacheSet k]"
        "out = Resp ((jsonify L response_data)\<lparr>headers := header_set ''X-Cache'' ''MISS''
                        (headers (jsonify L response_data))\<rparr>)"
        by (cases "Cache_set L now_set k response_data (dict_get d ''model'' (PStr ''unknown'')) None c1";
            simp add: handle_chat_completion_def Let_def)+
      then show ?thesis by (simp add: map_of_header_set)
    next
      case no: False
      from False assms(2) PDict ns k g r no have
        "evs = [HashRequest, CacheGet k, Forward payload]" "out = Resp result"
        by (simp_all add: handle_chat_completion_def Let_def)
      moreover have "caller_header ''X-Cache'' (Inr (Resp result)) = None"
        using forward_request_no_X_Cache [of L P post inbound payload] r by simp
      ultimately show ?thesis using no r by simp
    qed
  qed
qed (use assms(2) in \<open>simp_all add: handle_chat_completion_def\<close>)

text \<open>
  C7, amended. A call of the handler that returns a response is one of four: a streaming
  request, forwarded, whose response has no header \<^verbatim>\<open>X-Cache\<close>; a request served from
  the cache with no call of the transport, whose response has \<^verbatim>\<open>X-Cache: HIT\<close>; a request
  forwarded and stored, whose response has \<^verbatim>\<open>X-Cache: MISS\<close>; a request forwarded and not
  stored, whose response is the upstream's, with a status other than 200 and no header
  \<^verbatim>\<open>X-Cache\<close>.
\<close>

theorem cache_status_header:
  assumes "handle_chat_completion L P post inbound now_get now_set payload c = (c', evs, Inr out)"
  shows "(streaming payload \<and> evs = [Forward payload] \<and>
          caller_header ''X-Cache'' (Inr out) = None) \<or>
         (\<exists>k. \<not> streaming payload \<and> evs = [HashRequest, CacheGet k] \<and>
              caller_header ''X-Cache'' (Inr out) = Some ''HIT'') \<or>
         (\<exists>k. \<not> streaming payload \<and> evs = [HashRequest, CacheGet k, Forward payload, CacheSet k] \<and>
              caller_header ''X-Cache'' (Inr out) = Some ''MISS'') \<or>
         (\<exists>k. \<not> streaming payload \<and> evs = [HashRequest, CacheGet k, Forward payload] \<and>
              out = forward_request L P post inbound payload \<and>
              caller_header ''X-Cache'' (Inr out) = None \<and> caller_status (Inr out) \<noteq> 200)"
proof (cases "streaming payload")
  case True
  with assms have "evs = [Forward payload]" "out = forward_request L P post inbound payload"
    by (simp_all add: handle_streaming)
  with True show ?thesis by (simp add: forward_request_no_X_Cache)
next
  case False
  from handle_not_streaming [OF False assms] False show ?thesis by blast
qed

theorem cache_status_header_witness:
  "handle_chat_completion example_lib example_proxy (upstream_replies 200 ''id'')
     no_headers 1 2 example_payload (Cache_init None None) =
     (\<lparr>ttl_seconds = None, max_entries = None,
        rows = [\<lparr>key = ''messagesmodel'', response = ''id'', model = ''gpt-x'',
                 created_at = 2, expires_at = None, hit_count = 0, last_accessed = 2\<rparr>],
        hits = 0, misses = 1\<rparr>,
      [HashRequest, CacheGet ''messagesmodel'', Forward example_payload, CacheSet ''messagesmodel''],
      Inr (Resp \<lparr>status_code = 200, data = ''id'',
                 headers = [(''Content-Type'', ''application/json''), (''X-Cache'', ''MISS'')]\<rparr>)) \<and>
   caller_header ''X-Cache''
     (Inr (Resp \<lparr>status_code = 200, data = ''id'',
                 headers = [(''Content-Type'', ''application/json''), (''X-Cache'', ''MISS'')]\<rparr>)) =
     Some ''MISS'' \<and>
   handle_chat_completion example_lib example_proxy (upstream_unreachable ''down'')
     no_headers 3 4 example_payload
     \<lparr>ttl_seconds = None, max_entries = None,
        rows = [\<lparr>key = ''messagesmodel'', response = ''id'', model = ''gpt-x'',
                 created_at = 2, expires_at = None, hit_count = 0, last_accessed = 2\<rparr>],
        hits = 0, misses = 1\<rparr> =
     (\<lparr>ttl_seconds = None, max_entries = None,
        rows = [\<lparr>key = ''messagesmodel'', response = ''id'', model = ''gpt-x'',
                 created_at = 2, expires_at = None, hit_count = 1, last_accessed = 3\<rparr>],
        hits = 1, misses = 1\<rparr>,
      [HashRequest, CacheGet ''messagesmodel''],
      Inr (Resp \<lparr>status_code = 200, data = ''id'',
                 headers = [(''Content-Type'', ''application/json''), (''X-Cache'', ''HIT'')]\<rparr>)) \<and>
   caller_header ''X-Cache''
     (Inr (Resp \<lparr>status_code = 200, data = ''id'',
                 headers = [(''Content-Type'', ''application/json''), (''X-Cache'', ''HIT'')]\<rparr>)) =
     Some ''HIT''"
proof -
  let ?c1 = "\<lparr>ttl_seconds = None, max_entries = None,
        rows = [\<lparr>key = ''messagesmodel'', response = ''id'', model = ''gpt-x'',
                 created_at = 2, expires_at = None, hit_count = 0, last_accessed = 2\<rparr>],
        hits = 0, misses = 1\<rparr>"
  have miss: "handle_chat_completion example_lib example_proxy (upstream_replies 200 ''id'')
     no_headers 1 2 example_payload (Cache_init None None) =
     (?c1,
      [HashRequest, CacheGet ''messagesmodel'', Forward example_payload, CacheSet ''messagesmodel''],
      Inr (Resp \<lparr>status_code = 200, data = ''id'',
                 headers = [(''Content-Type'', ''application/json''), (''X-Cache'', ''MISS'')]\<rparr>))"
    by (simp add: handle_chat_completion_def example_payload_def dict_get_def example_key
        Cache_get_def Cache_init_def forward_request_def example_proxy_def
        Cache_set_def insert_or_replace_def fresh_row_def effective_ttl_def jsonify_def
        upstream_replies_def no_headers_def)
       (simp add: example_lib_def Let_def Cache_set_def insert_or_replace_def fresh_row_def
          effective_ttl_def jsonify_def)
  have hit: "handle_chat_completion example_lib example_proxy (upstream_unreachable ''down'')
     no_headers 3 4 example_payload ?c1 =
     (\<lparr>ttl_seconds = None, max_entries = None,
        rows = [\<lparr>key = ''messagesmodel'', response = ''id'', model = ''gpt-x'',
                 created_at = 2, expires_at = None, hit_count = 1, last_accessed = 3\<rparr>],
        hits = 1, misses = 1\<rparr>,
      [HashRequest, CacheGet ''messagesmodel''],
      Inr (Resp \<lparr>status_code = 200, data = ''id'',
                 headers = [(''Content-Type'', ''application/json''), (''X-Cache'', ''HIT'')]\<rparr>))"
    by (simp add: handle_chat_completion_def example_payload_def dict_get_def example_key
        Cache_get_def jsonify_def)
       (simp add: example_lib_def Let_def Cache_set_def insert_or_replace_def fresh_row_def
          effective_ttl_def jsonify_def)
  from cache_status_header [OF miss] have "caller_header ''X-Cache''
     (Inr (Resp \<lparr>status_code = 200, data = ''id'',
                 headers = [(''Content-Type'', ''application/json''), (''X-Cache'', ''MISS'')]\<rparr>)) =
     Some ''MISS''"
    by (elim disjE exE conjE) simp_all
  moreover from cache_status_header [OF hit] have "caller_header ''X-Cache''
     (Inr (Resp \<lparr>status_code = 200, data = ''id'',
                 headers = [(''Content-Type'', ''application/json''), (''X-Cache'', ''HIT'')]\<rparr>)) =
     Some ''HIT''"
    by (elim disjE exE conjE) simp_all
  ultimately show ?thesis using miss hit by simp
qed

text \<open>
  A request that is not streaming and misses the cache, with an upstream that replies 429:
  the response relayed has no header \<^verbatim>\<open>X-Cache\<close>.
\<close>

theorem cache_status_header_counterexample:
  "handle_chat_completion example_lib example_proxy (upstream_replies 429 ''slow down'')
     no_headers 1 2 example_payload (Cache_init None None) =
     (\<lparr>ttl_seconds = None, max_entries = None, rows = [], hits = 0, misses = 1\<rparr>,
      [HashRequest, CacheGet ''messagesmodel'', Forward example_payload],
      Inr (Resp \<lparr>status_code = 429, data = ''slow down'',
                 headers = [(''Content-Type'', ''application/json'')]\<rparr>)) \<and>
   \<not> streaming example_payload \<and>
   caller_header ''X-Cache''
     (Inr (Resp \<lparr>status_code = 429, data = ''slow down'',
                 headers = [(''Content-Type'', ''application/json'')]\<rparr>)) = None"
  by (simp add: handle_chat_completion_def example_payload_def dict_get_def example_key
      Cache_get_def Cache_init_def forward_request_def example_proxy_def streaming_def
      upstream_replies_def no_headers_def)

text \<open>
  C8. The proxy handles any list of requests whose payload has a true \<^verbatim>\<open>stream\<close>, repeated
  or not, on any cache: the cache is left as it was, counters included (every
  \<^verbatim>\<open>Cache.get\<close> changes a counter), the calls made are one call of the transport for each
  request, with its payload, and no fingerprint, no read and no write of the cache, and
  each result is the one of \<^verbatim>\<open>_forward_request\<close>, which, when the transport replies,
  is a response with the status and the body of the reply.
\<close>

theorem streaming_bypass:
  assumes "\<forall>q\<in>set qs. streaming (req_json q)"
  shows "serve L P qs c =
           (c, map (\<lambda>q. Forward (req_json q)) qs,
            map (\<lambda>q. Inr (forward_request L P (req_post q) (req_headers q) (req_json q))) qs) \<and>
         (\<forall>q\<in>set qs. \<forall>st content.
            (\<forall>url hs. req_post q url (req_json q) hs = Replied st content) \<longrightarrow>
            forward_request L P (req_post q) (req_headers q) (req_json q) =
              Resp \<lparr>status_code = st, data = content,
                    headers = [(''Content-Type'', ''application/json'')]\<rparr>)"
proof -
  have "serve L P qs c =
           (c, map (\<lambda>q. Forward (req_json q)) qs,
            map (\<lambda>q. Inr (forward_request L P (req_post q) (req_headers q) (req_json q))) qs)"
    using assms
  proof (induction qs)
    case Nil
    show ?case by simp
  next
    case (Cons q qs)
    then have "streaming (req_json q)" and "\<forall>q\<in>set qs. streaming (req_json q)" by simp_all
    with Cons.IH show ?case by (simp add: handle_streaming)
  qed
  then show ?thesis by (simp add: forward_request_replied)
qed

theorem streaming_bypass_witness:
  "streaming example_stream_payload \<and>
   serve example_lib example_proxy
     (replicate 3 \<lparr>req_headers = no_headers, req_json = example_stream_payload,
                    req_post = upstream_replies 200 ''id'',
                    req_now_get = 1, req_now_set = 2\<rparr>)
     example_cache =
     (example_cache,
      [Forward example_stream_payload, Forward example_stream_payload,
       Forward example_stream_payload],
      replicate 3 (Inr (Resp \<lparr>status_code = 200, data = ''id'',
                              headers = [(''Content-Type'', ''application/json'')]\<rparr>)))"
proof -
  let ?q = "\<lparr>req_headers = no_headers, req_json = example_stream_payload,
             req_post = upstream_replies 200 ''id'',
             req_now_get = 1, req_now_set = 2\<rparr>"
  have s: "streaming example_stream_payload"
    by (simp add: streaming_def example_stream_payload_def dict_get_def)
  then have "\<forall>q\<in>set (replicate 3 ?q). streaming (req_json q)" by simp
  from streaming_bypass [OF this, of example_lib example_proxy example_cache]
  have served: "serve example_lib example_proxy (replicate 3 ?q) example_cache =
      (example_cache, map (\<lambda>q. Forward (req_json q)) (replicate 3 ?q),
       map (\<lambda>q. Inr (forward_request example_lib example_proxy (req_post q) (req_headers q)
                        (req_json q))) (replicate 3 ?q))"
    by (rule conjunct1)
  have relayed: "forward_request example_lib example_proxy (upstream_replies 200 ''id'') no_headers
      example_stream_payload =
      Resp \<lparr>status_code = 200, data = ''id'',
            headers = [(''Content-Type'', ''application/json'')]\<rparr>"
    by (simp add: forward_request_def upstream_replies_def Let_def)
  have calls: "map (\<lambda>q. Forward (req_json q)) (replicate 3 ?q) =
      [Forward example_stream_payload, Forward example_stream_payload,
       Forward example_stream_payload]"
    by (simp add: numeral_3_eq_3)
  have outs: "map (\<lambda>q. Inr (forward_request example_lib example_proxy (req_post q) (req_headers q)
                        (req_json q))) (replicate 3 ?q) =
      replicate 3 (Inr (Resp \<lparr>status_code = 200, data = ''id'',
                              headers = [(''Content-Type'', ''application/json'')]\<rparr>))"
    by (simp add: relayed)
  show ?thesis unfolding served calls outs using s by simp
qed

text \<open>
  A request that is not streaming and misses the cache: what the handler does with a
  transport that raises, with an upstream status other than 200, and with status 200.
\<close>

lemma forward_request_failure:
  assumes "\<forall>url hs. post url payload hs = RequestException msg"
  shows "forward_request L P post inbound payload =
           RespStatus (jsonify L (PDict [(''error'', PStr msg)])) 502"
  using assms by (simp add: forward_request_def Let_def)

lemma miss_transport_failure:
  assumes "\<not> truthy (dict_get d ''stream'' (PBool False))"
    and "hash_request L (dict_get d ''messages'' (PList [])) (dict_get d ''model'' (PStr ''unknown''))
           (dict_get d ''temperature'' PNone) (dict_get d ''max_tokens'' PNone)
           (dict_get d ''tools'' PNone) [] = Inr k"
    and "Cache_get L now_get k c = (c1, Inr PNone)"
    and "\<forall>url hs. post url (PDict d) hs = RequestException msg"
  shows "handle_chat_completion L P post inbound now_get now_set (PDict d) c =
           (c1, [HashRequest, CacheGet k, Forward (PDict d)], Inl AttributeError)"
  using assms(1,2,3) forward_request_failure [of post "PDict d" msg L P inbound, OF assms(4)]
  by (simp add: handle_chat_completion_def Let_def)

lemma miss_upstream_rejects:
  assumes "\<not> truthy (dict_get d ''stream'' (PBool False))"
    and "hash_request L (dict_get d ''messages'' (PList [])) (dict_get d ''model'' (PStr ''unknown''))
           (dict_get d ''temperature'' PNone) (dict_get d ''max_tokens'' PNone)
           (dict_get d ''tools'' PNone) [] = Inr k"
    and "Cache_get L now_get k c = (c1, Inr PNone)"
    and "\<forall>url hs. post url (PDict d) hs = Replied st content" and "st \<noteq> 200"
  shows "handle_chat_completion L P post inbound now_get now_set (PDict d) c =
           (c1, [HashRequest, CacheGet k, Forward (PDict d)],
            Inr (Resp \<lparr>status_code = st, data = content,
                       headers = [(''Content-Type'', ''application/json'')]\<rparr>))"
  using assms(1,2,3,5) forward_request_replied [of post "PDict d" st content L P inbound, OF assms(4)]
  by (simp add: handle_chat_completion_def Let_def)

lemma miss_upstream_accepts:
  assumes "\<not> truthy (dict_get d ''stream'' (PBool False))"
    and "hash_request L (dict_get d ''messages'' (PList [])) (dict_get d ''model'' (PStr ''unknown''))
           (dict_get d ''temperature'' PNone) (dict_get d ''max_tokens'' PNone)
           (dict_get d ''tools'' PNone) [] = Inr k"
    and "Cache_get L now_get k c = (c1, Inr PNone)"
    and "\<forall>url hs. post url (PDict d) hs = Replied 200 content"
    and "json_loads L content = Some v"
    and "Cache_set L now_set k v (dict_get d ''model'' (PStr ''unknown'')) None c1 = Inr c2"
  shows "handle_chat_completion L P post inbound now_get now_set (PDict d) c =
           (c2, [HashRequest, CacheGet k, Forward (PDict d), CacheSet k],
            Inr (Resp ((jsonify L v)\<lparr>headers := header_set ''X-Cache'' ''MISS''
                                                (headers (jsonify L v))\<rparr>)))"
  using assms(1,2,3,5,6) forward_request_replied [of post "PDict d" 200 content L P inbound, OF assms(4)]
  by (simp add: handle_chat_completion_def Let_def)

text \<open>
  C9, at the failing input. A request that is not streaming and misses the cache, with a
  transport that raises: \<^verbatim>\<open>_forward_request\<close> returns the pair of a response and 502,
  \<^verbatim>\<open>result.status_code\<close> raises an \<^verbatim>\<open>AttributeError\<close>, and the caller receives status
  500; nothing is stored. The same failure on a streaming request reaches the caller as
  status 502, since the pair is returned to Flask as it is.
\<close>

theorem transport_failure_raises:
  "handle_chat_completion example_lib example_proxy
     (upstream_unreachable ''connection refused'')
     no_headers 1 2 example_payload (Cache_init None None) =
     (\<lparr>ttl_seconds = None, max_entries = None, rows = [], hits = 0, misses = 1\<rparr>,
      [HashRequest, CacheGet ''messagesmodel'', Forward example_payload],
      Inl AttributeError) \<and>
   caller_status (Inl AttributeError) = 500 \<and>
   handle_chat_completion example_lib example_proxy
     (upstream_unreachable ''connection refused'')
     no_headers 1 2 example_stream_payload (Cache_init None None) =
     (Cache_init None None, [Forward example_stream_payload],
      Inr (RespStatus \<lparr>status_code = 200, data = ''error'',
                       headers = [(''Content-Type'', ''application/json'')]\<rparr> 502)) \<and>
   caller_status
     (Inr (RespStatus \<lparr>status_code = 200, data = ''error'',
                       headers = [(''Content-Type'', ''application/json'')]\<rparr> 502)) = 502"
  by (simp add: handle_chat_completion_def example_payload_def example_stream_payload_def
      dict_get_def example_key Cache_get_def Cache_init_def forward_request_def
      example_proxy_def jsonify_def upstream_unreachable_def no_headers_def)
     (simp add: example_lib_def Let_def jsonify_def)

end
